theory Spec2Isabelle
  imports Complex_Main
begin

section \<open>Tensors\<close>

text \<open>
  A contiguous torch tensor is its shape together with its elements in row-major order.
  The values of the elements are reals, and sums, products and quotients of values are
  exact. Rounding is modelled where it decides a discrete result: the number of kept
  positions, the majority sign, the branch taken on a threshold. The diagnostic prints
  and the catch-and-reraise wrappers around the sce functions do not change any returned
  value or raised error and are left out.
\<close>

record 'a tensor =
  shape :: "nat list"
  data :: "'a list"

definition wf_tensor :: "'a tensor \<Rightarrow> bool" where
  "wf_tensor t = (length (data t) = prod_list (shape t))"

definition ndim :: "'a tensor \<Rightarrow> nat" where
  "ndim t = length (shape t)"

definition numel :: "'a tensor \<Rightarrow> nat" where
  "numel t = prod_list (shape t)"

text \<open>
  \<open>ValueError\<close>, \<open>RuntimeError\<close> and \<open>IndexError\<close> are the exceptions of the source.
  \<open>NonFinite\<close> is no exception: it stands for a returned tensor that holds \<open>inf\<close> or
  \<open>nan\<close>, which a tensor of reals cannot hold.
\<close>

datatype error = ValueError string | RuntimeError string | IndexError string | NonFinite string

fun ebind :: "error + 'a \<Rightarrow> ('a \<Rightarrow> error + 'b) \<Rightarrow> error + 'b" where
  "ebind (Inl e) f = Inl e"
| "ebind (Inr x) f = f x"

definition tmap :: "('a \<Rightarrow> 'b) \<Rightarrow> 'a tensor \<Rightarrow> 'b tensor" where
  "tmap f t = \<lparr>shape = shape t, data = map f (data t)\<rparr>"

text \<open>\<open>t.view(new_shape)\<close>: the same elements under another shape of the same size.\<close>

definition view :: "'a tensor \<Rightarrow> nat list \<Rightarrow> error + 'a tensor" where
  "view t new_shape =
     (if prod_list new_shape = length (data t) then Inr (t\<lparr>shape := new_shape\<rparr>)
      else Inl (RuntimeError ''shape is invalid for input size''))"

subsection \<open>Rounding\<close>

text \<open>
  Rounding to the nearest number with a significand of \<open>p\<close> bits, ties to the even
  significand, as IEEE 754 prescribes for one arithmetic operation (53 bits for a Python
  float, 24 bits for a float32 tensor). Overflow and subnormal numbers are left out.
\<close>

function bit_length :: "int \<Rightarrow> int" where
  "bit_length n = (if n \<le> 0 then 0 else 1 + bit_length (n div 2))"
  by pat_completeness auto
termination
  by (relation "measure nat") auto

definition round_half_even :: "real \<Rightarrow> int" where
  "round_half_even y =
     (let f = \<lfloor>y\<rfloor>; d = y - of_int f
      in if d < 1 / 2 then f else if 1 / 2 < d then f + 1 else if even f then f else f + 1)"

definition pow2 :: "int \<Rightarrow> real" where
  "pow2 e = (if 0 \<le> e then 2 ^ nat e else 1 / 2 ^ nat (- e))"

text \<open>The exponent of a positive number: the largest \<open>e\<close> with \<open>2 ^ e \<le> x\<close>.\<close>

definition ilog2 :: "real \<Rightarrow> int" where
  "ilog2 x = (if 1 \<le> x then bit_length \<lfloor>x\<rfloor> - 1 else - bit_length (\<lceil>1 / x\<rceil> - 1))"

definition fl_round :: "nat \<Rightarrow> real \<Rightarrow> real" where
  "fl_round p x =
     (if x = 0 then 0
      else let u = pow2 (ilog2 \<bar>x\<bar> - int p + 1)
           in u * of_int (round_half_even (x / u)))"

definition round64 :: "real \<Rightarrow> real" where
  "round64 = fl_round 53"

definition round32 :: "real \<Rightarrow> real" where
  "round32 = fl_round 24"

subsection \<open>What torch leaves open\<close>

text \<open>
  The source does not fix the following, and the functions that depend on them take
  them as a parameter:
  \<^item> \<open>rand_uniform i\<close>: the uniform sample in \<open>[0, 1)\<close> behind element \<open>i\<close> of a random
    draw;
  \<^item> \<open>topk_order xs\<close>: the indices of \<open>xs\<close> in the order in which \<open>torch.topk\<close> prefers
    them among equal elements;
  \<^item> \<open>fl_sum xs\<close>: the sum of the values \<open>xs\<close> as the reduction \<open>sum\<close> computes it in the
    tensor's floating-point type, in the order it chooses;
  \<^item> \<open>fl_mean_sq xs\<close>: the mean of the squares of \<open>xs\<close> as \<open>torch.mean(t**2, ...)\<close>
    computes it for one block of at least one element;
  \<^item> \<open>fl_var xs\<close>: the population variance of the values \<open>xs\<close> as \<open>torch.var\<close> computes
    it.
\<close>

record runtime =
  rand_uniform :: "nat \<Rightarrow> real"
  topk_order :: "real list \<Rightarrow> nat list"
  fl_sum :: "real list \<Rightarrow> real"
  fl_mean_sq :: "real list \<Rightarrow> real"
  fl_var :: "real list \<Rightarrow> real"

text \<open>
  One runtime, for evaluating the functions on concrete tensors: float32 tensors, every
  random sample 0, the lower index first among equal elements, sums from left to right
  with one rounding per operation, the variance rounded once.
\<close>

definition seq_sum32 :: "real list \<Rightarrow> real" where
  "seq_sum32 xs = foldl (\<lambda>a x. round32 (a + x)) 0 xs"

definition mean_list :: "real list \<Rightarrow> real" where
  "mean_list xs = sum_list xs / real (length xs)"

definition pvariance :: "real list \<Rightarrow> real" where
  "pvariance xs = mean_list (map (\<lambda>x. (x - mean_list xs)\<^sup>2) xs)"

definition sequential_runtime :: runtime where
  "sequential_runtime =
     \<lparr>rand_uniform = (\<lambda>_. 0),
      topk_order = (\<lambda>xs. [0..<length xs]),
      fl_sum = seq_sum32,
      fl_mean_sq = (\<lambda>xs. round32 (seq_sum32 (map (\<lambda>x. round32 (x\<^sup>2)) xs) / real (length xs))),
      fl_var = (\<lambda>xs. round32 (pvariance xs))\<rparr>"

subsection \<open>Broadcasting\<close>

text \<open>The \<open>n\<close> consecutive blocks of \<open>p\<close> elements of a flat list.\<close>

definition chunks :: "nat \<Rightarrow> nat \<Rightarrow> 'a list \<Rightarrow> 'a list list" where
  "chunks p n xs = map (\<lambda>i. take p (drop (i * p) xs)) [0..<n]"

text \<open>
  Shapes are aligned at their last axis; two axes are compatible when they are equal or
  one of them is 1. The function works on the reversed shapes.
\<close>

fun broadcast_rev :: "nat list \<Rightarrow> nat list \<Rightarrow> nat list option" where
  "broadcast_rev [] ys = Some ys"
| "broadcast_rev (x # xs) [] = Some (x # xs)"
| "broadcast_rev (x # xs) (y # ys) =
     (case broadcast_rev xs ys of
        None \<Rightarrow> None
      | Some r \<Rightarrow> if x = y then Some (x # r)
                  else if x = 1 then Some (y # r)
                  else if y = 1 then Some (x # r)
                  else None)"

definition broadcast_shapes :: "nat list \<Rightarrow> nat list \<Rightarrow> nat list option" where
  "broadcast_shapes a b = map_option rev (broadcast_rev (rev a) (rev b))"

definition pad_shape :: "nat \<Rightarrow> nat list \<Rightarrow> nat list" where
  "pad_shape r s = replicate (r - length s) 1 @ s"

text \<open>
  Expanding the elements of a tensor of shape \<open>s\<close> to the broadcast shape \<open>t\<close> of the same
  rank: an axis of equal length is traversed block by block, an axis of length 1 is
  repeated.
\<close>

fun expand :: "nat list \<Rightarrow> nat list \<Rightarrow> 'a list \<Rightarrow> 'a list" where
  "expand (d # ds) (t # ts) xs =
     (if d = t then concat (map (expand ds ts) (chunks (prod_list ds) d xs))
      else concat (replicate t (expand ds ts xs)))"
| "expand [] ts xs = xs"
| "expand (d # ds) [] xs = xs"

definition binop :: "('a \<Rightarrow> 'b \<Rightarrow> 'c) \<Rightarrow> 'a tensor \<Rightarrow> 'b tensor \<Rightarrow> error + 'c tensor" where
  "binop f a b =
     (case broadcast_shapes (shape a) (shape b) of
        None \<Rightarrow> Inl (RuntimeError ''The size of tensor a must match the size of tensor b'')
      | Some s \<Rightarrow>
          Inr \<lparr>shape = s,
               data = map2 f (expand (pad_shape (length s) (shape a)) s (data a))
                             (expand (pad_shape (length s) (shape b)) s (data b))\<rparr>)"

definition tmul :: "real tensor \<Rightarrow> real tensor \<Rightarrow> error + real tensor" where
  "tmul = binop (*)"

text \<open>
  Division of tensors. Where a divisor is 0 torch stores \<open>inf\<close> or \<open>nan\<close>: the quotient
  tensor is then not a tensor of reals, and the result is \<open>NonFinite\<close>.
\<close>

definition tdiv :: "real tensor \<Rightarrow> real tensor \<Rightarrow> error + real tensor" where
  "tdiv a b =
     ebind (binop (\<lambda>x y. if y = 0 then None else Some (x / y)) a b) (\<lambda>q.
       if list_all (\<lambda>v. v \<noteq> None) (data q) then Inr (tmap the q)
       else Inl (NonFinite ''division by zero''))"

definition teq :: "real tensor \<Rightarrow> real tensor \<Rightarrow> error + bool tensor" where
  "teq = binop (=)"

text \<open>A boolean tensor enters arithmetic as 0 and 1.\<close>

definition of_bool_tensor :: "bool tensor \<Rightarrow> real tensor" where
  "of_bool_tensor = tmap (\<lambda>b. if b then 1 else 0)"

definition zeros_like :: "'a tensor \<Rightarrow> real tensor" where
  "zeros_like = tmap (\<lambda>_. 0)"

definition ones_like :: "'a tensor \<Rightarrow> real tensor" where
  "ones_like = tmap (\<lambda>_. 1)"

section \<open>Weight broadcaster\<close>

text \<open>
  \<open>weights.shape + (1,) * (task_tensors.dim() - weights.dim())\<close>: a tuple times a
  negative integer is the empty tuple, which is what \<open>nat\<close> of a negative integer gives.
\<close>

definition reshape_weight_task_tensors :: "'a tensor \<Rightarrow> 'b tensor \<Rightarrow> error + 'b tensor" where
  "reshape_weight_task_tensors task_tensors weights =
     (let new_shape = shape weights @
            replicate (nat (int (ndim task_tensors) - int (ndim weights))) 1
      in view weights new_shape)"

section \<open>Pruning engine\<close>

text \<open>Python's \<open>int(x)\<close> on a float truncates towards zero.\<close>

definition py_int :: "real \<Rightarrow> int" where
  "py_int x = (if 0 \<le> x then \<lfloor>x\<rfloor> else \<lceil>x\<rceil>)"

text \<open>
  \<open>torch.topk(xs, k, largest=True)\<close> on a flat list: the values and the indices of the
  \<open>k\<close> largest elements. The sort is stable, so that equal elements are taken in the
  order \<open>order\<close> lists their indices.
\<close>

definition topk :: "nat list \<Rightarrow> real list \<Rightarrow> int \<Rightarrow> error + (real list \<times> nat list)" where
  "topk order xs k =
     (if k < 0 \<or> int (length xs) < k then Inl (RuntimeError ''selected index k out of range'')
      else let idx = take (nat k) (sort_key (\<lambda>i. - (xs ! i)) order)
           in Inr (map (\<lambda>i. xs ! i) idx, idx))"

text \<open>\<open>mask[indices] = v\<close> on a flat list.\<close>

definition index_put :: "'a list \<Rightarrow> nat list \<Rightarrow> 'a \<Rightarrow> 'a list" where
  "index_put xs idx v = foldl (\<lambda>m i. m[i := v]) xs idx"

text \<open>
  \<open>k = int(density * tensor.numel())\<close>: the product of a Python float and an integer is
  the exact product rounded to a double.
\<close>

definition magnitude_based_pruning :: "runtime \<Rightarrow> real tensor \<Rightarrow> real \<Rightarrow> error + real tensor" where
  "magnitude_based_pruning env tensor density =
     (let mask = data (zeros_like tensor);
          k = py_int (round64 (density * real (numel tensor)));
          magnitudes = map abs (data tensor)
      in ebind (topk (topk_order env magnitudes) magnitudes k) (\<lambda>top_k.
           let mask = index_put mask (snd top_k) 1
           in ebind (view \<lparr>shape = [length mask], data = mask\<rparr> (shape tensor)) (\<lambda>m.
                tmul tensor m)))"

text \<open>
  \<open>torch.bernoulli\<close> draws one outcome per element: element \<open>i\<close> is kept when the sample
  \<open>u i\<close> is below the probability stored there. It raises when a probability lies
  outside \<open>[0, 1]\<close>.
\<close>

definition bernoulli :: "(nat \<Rightarrow> real) \<Rightarrow> real tensor \<Rightarrow> error + real tensor" where
  "bernoulli u probs =
     (if list_all (\<lambda>p. 0 \<le> p \<and> p \<le> 1) (data probs) then
        Inr \<lparr>shape = shape probs,
             data = map (\<lambda>i. if u i < data probs ! i then 1 else 0) [0..<length (data probs)]\<rparr>
      else Inl (RuntimeError ''Expected p_in >= 0 && p_in <= 1''))"

definition full_like :: "'a tensor \<Rightarrow> real \<Rightarrow> real tensor" where
  "full_like t fill_value = tmap (\<lambda>_. fill_value) t"

definition div_scalar :: "real tensor \<Rightarrow> real \<Rightarrow> real tensor" where
  "div_scalar t other = tmap (\<lambda>x. x / other) t"

text \<open>
  In the rescale branch the source calls \<open>torch.div(input=pruned_tensor, other=density)\<close>
  as a statement: the quotient is a new tensor that is bound to nothing, and
  \<open>pruned_tensor\<close> is returned.
\<close>

definition random_pruning :: "(nat \<Rightarrow> real) \<Rightarrow> real tensor \<Rightarrow> real \<Rightarrow> bool \<Rightarrow> error + real tensor" where
  "random_pruning u tensor density rescale =
     ebind (bernoulli u (full_like tensor density)) (\<lambda>mask.
     ebind (tmul tensor mask) (\<lambda>pruned_tensor.
       let unused = (if rescale then [div_scalar pruned_tensor density] else [])
       in Inr pruned_tensor))"

text \<open>
  The dispatcher returns the warnings it emitted together with its result. The messages
  are kept without the density or method name that the source formats into them.
\<close>

definition prune ::
  "runtime \<Rightarrow> real tensor \<Rightarrow> real \<Rightarrow> string \<Rightarrow> bool \<Rightarrow> string list \<times> (error + real tensor)" where
  "prune env tensor density method rescale =
     (if density \<ge> 1 then
        ([''The density is greater than or equal to 1, no pruning will be performed.''],
         Inr tensor)
      else if density < 0 then ([], Inl (ValueError ''Density should be >= 0''))
      else if method = ''magnitude'' then ([], magnitude_based_pruning env tensor density)
      else if method = ''random'' then
        ([], random_pruning (rand_uniform env) tensor density rescale)
      else ([], Inl (ValueError ''Unknown method'')))"

section \<open>Stacked task tensors\<close>

text \<open>\<open>torch.stack(ts, dim=0)\<close>: the task axis becomes axis 0.\<close>

definition stack :: "'a tensor list \<Rightarrow> error + 'a tensor" where
  "stack ts =
     (case ts of
        [] \<Rightarrow> Inl (RuntimeError ''stack expects a non-empty TensorList'')
      | t # rest \<Rightarrow>
          if list_all (\<lambda>t'. shape t' = shape t) rest
          then Inr \<lparr>shape = length ts # shape t, data = concat (map data ts)\<rparr>
          else Inl (RuntimeError ''stack expects each tensor to be equal size''))"

text \<open>\<open>t.sum(dim=0)\<close> on values: the blocks along axis 0 are added elementwise.\<close>

definition sum_dim0 :: "real tensor \<Rightarrow> real tensor" where
  "sum_dim0 t =
     (case shape t of
        [] \<Rightarrow> t
      | n # s \<Rightarrow>
          \<lparr>shape = s,
           data = foldl (map2 (+)) (replicate (prod_list s) 0)
                    (chunks (prod_list s) n (data t))\<rparr>)"

text \<open>
  A reduction along axis 0 by a given function of the column: entry \<open>q\<close> of the result
  is \<open>f\<close> of the elements at position \<open>q\<close> of the blocks, in block order.
\<close>

definition reduce_dim0 :: "(real list \<Rightarrow> real) \<Rightarrow> real tensor \<Rightarrow> real tensor" where
  "reduce_dim0 f t =
     (case shape t of
        [] \<Rightarrow> t
      | n # s \<Rightarrow>
          \<lparr>shape = s,
           data = map (\<lambda>q. f (map (\<lambda>c. c ! q) (chunks (prod_list s) n (data t))))
                    [0..<prod_list s]\<rparr>)"

definition clamp_min :: "real tensor \<Rightarrow> real \<Rightarrow> real tensor" where
  "clamp_min t m = tmap (\<lambda>x. max x m) t"

definition unsqueeze0 :: "'a tensor \<Rightarrow> 'a tensor" where
  "unsqueeze0 t = t\<lparr>shape := 1 # shape t\<rparr>"

section \<open>Sign consensus engine\<close>

text \<open>
  The sign of \<open>sign_magnitude\<close> decides the mask, so the sum along the task axis is the
  sum as torch computes it.
\<close>

definition calculate_majority_sign_mask ::
  "runtime \<Rightarrow> real tensor \<Rightarrow> string \<Rightarrow> error + bool tensor" where
  "calculate_majority_sign_mask env tensor method =
     (let sign = tmap sgn tensor
      in ebind (if method = ''total'' then Inr (reduce_dim0 (fl_sum env) tensor)
                else if method = ''frequency'' then Inr (reduce_dim0 (fl_sum env) sign)
                else Inl (RuntimeError ''Unimplemented mask method'')) (\<lambda>sign_magnitude.
           let majority_sign = tmap (\<lambda>x. if x \<ge> 0 then 1 else - 1) sign_magnitude
           in teq sign majority_sign))"

section \<open>Disjoint merge\<close>

definition disjoint_merge :: "real tensor \<Rightarrow> bool tensor \<Rightarrow> error + real tensor" where
  "disjoint_merge task_tensors majority_sign_mask =
     ebind (tmul task_tensors (of_bool_tensor majority_sign_mask)) (\<lambda>masked.
       let mixed_task_tensors = sum_dim0 masked;
           num_params_preserved = sum_dim0 (of_bool_tensor majority_sign_mask)
       in tdiv mixed_task_tensors (clamp_min num_params_preserved 1))"

section \<open>Merge strategies\<close>


subsection \<open>Energy weights and variance mask\<close>

text \<open>
  \<open>torch.mean(task_tensors**2, dim=list(range(1, task_tensors.dim())))\<close>: one mean of
  squares per block along axis 0. With fewer than two axes the list of axes is empty,
  which torch reads as all axes. The mean of no elements is \<open>nan\<close>.
\<close>

definition mean_sq_tail :: "runtime \<Rightarrow> real tensor \<Rightarrow> error + real tensor" where
  "mean_sq_tail env t =
     (case shape t of
        n # d # ds \<Rightarrow>
          if 0 < n \<and> prod_list (d # ds) = 0 then Inl (NonFinite ''mean of no elements'')
          else Inr \<lparr>shape = [n],
                    data = map (fl_mean_sq env) (chunks (prod_list (d # ds)) n (data t))\<rparr>
      | _ \<Rightarrow>
          if data t = [] then Inl (NonFinite ''mean of no elements'')
          else Inr \<lparr>shape = [], data = [fl_mean_sq env (data t)]\<rparr>)"

text \<open>
  The test \<open>abs(weight_sum) < 1e-6\<close> is made on the sum as torch computes it. The
  quotients are values.
\<close>

definition sce_weight :: "runtime \<Rightarrow> real tensor \<Rightarrow> error + real tensor" where
  "sce_weight env task_tensors =
     ebind (mean_sq_tail env task_tensors) (\<lambda>weights.
       let weight_sum = fl_sum env (data weights)
       in if \<bar>weight_sum\<bar> < 1 / 10 ^ 6 then
            (case shape weights of
               [] \<Rightarrow> Inl (IndexError ''tuple index out of range'')
             | n # _ \<Rightarrow> Inr (tmap (\<lambda>x. x / real n) (ones_like weights)))
          else Inr (tmap (\<lambda>x. x / weight_sum) weights))"

text \<open>
  \<open>torch.var(t, dim=0, unbiased=False)\<close>: the population variance of each column. Which
  variances are nonzero and which are largest decides the mask, so the variance is the
  variance as torch computes it.
\<close>

definition var_dim0 :: "runtime \<Rightarrow> real tensor \<Rightarrow> real tensor" where
  "var_dim0 env t =
     (case shape t of
        [] \<Rightarrow> \<lparr>shape = [], data = map (\<lambda>_. 0) (data t)\<rparr>
      | n # s \<Rightarrow> reduce_dim0 (fl_var env) t)"

definition count_nonzero :: "real tensor \<Rightarrow> nat" where
  "count_nonzero t = length (filter (\<lambda>x. x \<noteq> 0) (data t))"

text \<open>
  \<open>k = int(nonzero * density)\<close>: \<open>nonzero\<close> is an integer tensor without axes, and its
  product with a Python float is a float32 tensor.
\<close>

definition sce_mask :: "runtime \<Rightarrow> real tensor \<Rightarrow> real \<Rightarrow> error + real tensor" where
  "sce_mask env task_tensors density =
     (if density \<le> 0 then Inr (zeros_like task_tensors)
      else if density \<ge> 1 then Inr (ones_like task_tensors)
      else
        let var = var_dim0 env task_tensors;
            nonzero = count_nonzero var;
            k = py_int (round32 (round32 (real nonzero) * round32 density))
        in if k = 0 then Inr (zeros_like task_tensors)
           else let magnitudes = map abs (data var)
                in ebind (topk (topk_order env magnitudes) magnitudes k) (\<lambda>top_k.
                     Inr \<lparr>shape = shape var,
                          data = index_put (data (zeros_like var)) (snd top_k) 1\<rparr>))"

text \<open>
  \<open>while tv_weights.dim() < task_tensors.dim(): tv_weights = tv_weights.unsqueeze(-1)\<close>:
  the loop runs once per missing axis.
\<close>

fun unsqueeze_last :: "nat \<Rightarrow> 'a tensor \<Rightarrow> 'a tensor" where
  "unsqueeze_last 0 t = t"
| "unsqueeze_last (Suc n) t = unsqueeze_last n (t\<lparr>shape := shape t @ [1]\<rparr>)"

definition sce :: "runtime \<Rightarrow> real tensor list \<Rightarrow> real \<Rightarrow> string \<Rightarrow> error + real tensor" where
  "sce env task_tensors density majority_sign_method =
     ebind (stack task_tensors) (\<lambda>task_tensors.
     ebind (if density < 1
            then ebind (sce_mask env task_tensors density) (\<lambda>mask.
                   tmul task_tensors (unsqueeze0 mask))
            else Inr task_tensors) (\<lambda>task_tensors.
     ebind (calculate_majority_sign_mask env task_tensors majority_sign_method) (\<lambda>erase_mask.
     ebind (sce_weight env task_tensors) (\<lambda>tv_weights.
       let tv_weights = unsqueeze_last (ndim task_tensors - ndim tv_weights) tv_weights
       in ebind (tmul tv_weights (of_bool_tensor erase_mask)) (\<lambda>erased_weights.
          ebind (tmul task_tensors erased_weights) (\<lambda>weighted.
            let merged_tv = sum_dim0 weighted
            in tdiv merged_tv (clamp_min (sum_dim0 erased_weights) (1 / 10 ^ 6))))))))"

section \<open>Auxiliary facts\<close>

subsection \<open>Blocks\<close>

lemma length_chunks [simp]: "length (chunks p n xs) = n"
  by (simp add: chunks_def)

lemma chunks_nth: "i < n \<Longrightarrow> chunks p n xs ! i = take p (drop (i * p) xs)"
  by (simp add: chunks_def)

lemma chunks_0 [simp]: "chunks p 0 xs = []"
  by (simp add: chunks_def)

lemma chunks_Suc: "chunks p (Suc n) xs = take p xs # chunks p n (drop p xs)"
proof -
  have "[0..<Suc n] = 0 # map Suc [0..<n]"
    by (simp add: upt_conv_Cons map_Suc_upt del: upt_Suc)
  then show ?thesis
    by (simp add: chunks_def comp_def add.commute del: upt_Suc)
qed

lemma concat_chunks: "length xs = n * p \<Longrightarrow> concat (chunks p n xs) = xs"
proof (induction n arbitrary: xs)
  case 0
  then show ?case by simp
next
  case (Suc n)
  then have "length (drop p xs) = n * p" by simp
  then have "concat (chunks p n (drop p xs)) = drop p xs" by (rule Suc.IH)
  then show ?case by (simp add: chunks_Suc)
qed


lemma length_chunk:
  assumes "length xs = n * p" and "c \<in> set (chunks p n xs)"
  shows "length c = p"
proof -
  from assms(2) obtain i where i: "i < n" and c: "c = take p (drop (i * p) xs)"
    by (auto simp: chunks_def)
  from i have "Suc i * p \<le> n * p" by (intro mult_le_mono1) simp
  then show ?thesis using assms(1) c by simp
qed

lemma chunk_nth:
  assumes "length xs = n * p" and "i < n" and "q < p"
  shows "chunks p n xs ! i ! q = xs ! (i * p + q)"
  using assms by (simp add: chunks_nth)

subsection \<open>Broadcasting\<close>


lemma expand_same: "length xs = prod_list s \<Longrightarrow> expand s s xs = xs"
proof (induction s arbitrary: xs)
  case Nil
  then show ?case by simp
next
  case (Cons d ds)
  have "map (expand ds ds) (chunks (prod_list ds) d xs) = chunks (prod_list ds) d xs"
  proof (rule map_idI)
    fix c assume "c \<in> set (chunks (prod_list ds) d xs)"
    with Cons.prems have "length c = prod_list ds"
      by (auto intro: length_chunk [where n = d and xs = xs])
    then show "expand ds ds c = c" by (rule Cons.IH)
  qed
  with Cons.prems show ?case by (simp add: concat_chunks)
qed

lemma expand_row:
  "length xs = prod_list s \<Longrightarrow> expand (1 # s) (n # s) xs = concat (replicate n xs)"
proof (cases "n = 1")
  case True
  assume "length xs = prod_list s"
  then have "expand (1 # s) (1 # s) xs = xs"
    by (intro expand_same) simp
  with True show ?thesis by simp
next
  case False
  assume "length xs = prod_list s"
  with False show ?thesis by (simp add: expand_same)
qed

lemma broadcast_rev_same [simp]: "broadcast_rev xs xs = Some xs"
  by (induction xs) simp_all

lemma broadcast_rev_row [simp]: "broadcast_rev (xs @ [n]) xs = Some (xs @ [n])"
  by (induction xs) simp_all

lemma broadcast_shapes_same [simp]: "broadcast_shapes s s = Some s"
  by (simp add: broadcast_shapes_def)

lemma broadcast_shapes_row [simp]: "broadcast_shapes (n # s) s = Some (n # s)"
  by (simp add: broadcast_shapes_def)

lemma pad_shape_same [simp]: "pad_shape (length s) s = s"
  by (simp add: pad_shape_def)

lemma pad_shape_cons [simp]: "pad_shape (Suc (length s)) (n # s) = n # s"
  by (simp add: pad_shape_def)

lemma pad_shape_row [simp]: "pad_shape (Suc (length s)) s = 1 # s"
  by (simp add: pad_shape_def)

lemma binop_same:
  "wf_tensor a \<Longrightarrow> wf_tensor b \<Longrightarrow> shape b = shape a \<Longrightarrow>
   binop f a b = Inr \<lparr>shape = shape a, data = map2 f (data a) (data b)\<rparr>"
  by (simp add: binop_def wf_tensor_def expand_same)

lemma binop_row:
  "wf_tensor a \<Longrightarrow> wf_tensor b \<Longrightarrow> shape a = n # shape b \<Longrightarrow>
   binop f a b = Inr \<lparr>shape = shape a,
                       data = map2 f (data a) (concat (replicate n (data b)))\<rparr>"
proof -
  assume a: "wf_tensor a" and b: "wf_tensor b" and s: "shape a = n # shape b"
  have 1: "expand (n # shape b) (n # shape b) (data a) = data a"
    using a s by (intro expand_same) (simp add: wf_tensor_def)
  have 2: "expand (1 # shape b) (n # shape b) (data b) = concat (replicate n (data b))"
    using b by (intro expand_row) (simp add: wf_tensor_def)
  show ?thesis
    using s 1 2 by (simp add: binop_def del: expand.simps)
qed

lemma concat_replicate_nth:
  "i < n \<Longrightarrow> q < length xs \<Longrightarrow> concat (replicate n xs) ! (i * length xs + q) = xs ! q"
proof (induction n arbitrary: i)
  case 0
  then show ?case by simp
next
  case (Suc n)
  show ?case
  proof (cases i)
    case 0
    with Suc.prems show ?thesis by (simp add: nth_append)
  next
    case (Suc j)
    with Suc.prems Suc.IH [of j] show ?thesis by (simp add: nth_append)
  qed
qed

lemma length_concat_replicate [simp]: "length (concat (replicate n xs)) = n * length xs"
  by (induction n) simp_all

subsection \<open>Sums along the task axis\<close>

lemma length_foldl_map2:
  "\<forall>c \<in> set cs. length c = length acc \<Longrightarrow> length (foldl (map2 (+)) acc cs) = length acc"
  by (induction cs arbitrary: acc) simp_all

lemma foldl_map2_nth:
  fixes acc :: "real list"
  shows "\<forall>c \<in> set cs. length c = length acc \<Longrightarrow> q < length acc \<Longrightarrow>
    foldl (map2 (+)) acc cs ! q = acc ! q + (\<Sum>c\<leftarrow>cs. c ! q)"
  by (induction cs arbitrary: acc) (simp_all add: add.assoc)

lemma sum_list_chunks_nth:
  fixes xs :: "real list"
  assumes "length xs = n * p" and "q < p"
  shows "(\<Sum>c\<leftarrow>chunks p n xs. c ! q) = (\<Sum>j<n. xs ! (j * p + q))"
proof -
  have "(\<Sum>c\<leftarrow>chunks p n xs. c ! q) = (\<Sum>j\<leftarrow>[0..<n]. chunks p n xs ! j ! q)"
    by (subst (1) map_nth [symmetric, of "chunks p n xs"]) (simp add: comp_def del: map_nth)
  also have "\<dots> = (\<Sum>j\<leftarrow>[0..<n]. xs ! (j * p + q))"
    using assms by (intro arg_cong [where f = sum_list] map_cong) (simp_all add: chunk_nth)
  also have "\<dots> = (\<Sum>j<n. xs ! (j * p + q))"
    by (simp add: sum_list_distinct_conv_sum_set atLeast0LessThan)
  finally show ?thesis .
qed

lemma sum_dim0_shape: "shape t = n # s \<Longrightarrow> shape (sum_dim0 t) = s"
  by (simp add: sum_dim0_def)

lemma sum_dim0_length:
  "shape t = n # s \<Longrightarrow> wf_tensor t \<Longrightarrow> length (data (sum_dim0 t)) = prod_list s"
proof -
  assume s: "shape t = n # s" and w: "wf_tensor t"
  then have len: "length (data t) = n * prod_list s"
    by (simp add: wf_tensor_def)
  have "\<forall>c \<in> set (chunks (prod_list s) n (data t)).
          length c = length (replicate (prod_list s) (0::real))"
    using len by (auto dest: length_chunk)
  then show ?thesis
    using s by (simp add: sum_dim0_def length_foldl_map2)
qed

lemma sum_dim0_nth:
  assumes "shape t = n # s" and "wf_tensor t" and "q < prod_list s"
  shows "data (sum_dim0 t) ! q = (\<Sum>j<n. data t ! (j * prod_list s + q))"
proof -
  have len: "length (data t) = n * prod_list s"
    using assms by (simp add: wf_tensor_def)
  have all: "\<forall>c \<in> set (chunks (prod_list s) n (data t)). length c = length (replicate (prod_list s) (0::real))"
    using len by (auto dest: length_chunk)
  show ?thesis
    using assms(1,3) foldl_map2_nth [OF all, of q] sum_list_chunks_nth [OF len assms(3)]
    by (simp add: sum_dim0_def)
qed

lemma sum_dim0_wf: "shape t = n # s \<Longrightarrow> wf_tensor t \<Longrightarrow> wf_tensor (sum_dim0 t)"
  using sum_dim0_length [of t n s] sum_dim0_shape [of t n s] by (simp add: wf_tensor_def)

lemma block_index_less: "i < n \<Longrightarrow> q < (p::nat) \<Longrightarrow> i * p + q < n * p"
proof -
  assume i: "i < n" and q: "q < p"
  from q have "i * p + q < i * p + p" by simp
  also have "\<dots> = Suc i * p" by simp
  also from i have "\<dots> \<le> n * p" by (intro mult_le_mono1) simp
  finally show ?thesis .
qed

lemma tmap_shape [simp]: "shape (tmap f t) = shape t"
  by (simp add: tmap_def)

lemma tmap_data [simp]: "data (tmap f t) = map f (data t)"
  by (simp add: tmap_def)

lemma tmap_wf [simp]: "wf_tensor (tmap f t) = wf_tensor t"
  by (simp add: wf_tensor_def)

lemma column_nth:
  assumes "length xs = n * p" and "q < p"
  shows "map (\<lambda>c. c ! q) (chunks p n xs) = map (\<lambda>j. xs ! (j * p + q)) [0..<n]"
proof -
  have "map (\<lambda>c. c ! q) (chunks p n xs) = map (\<lambda>j. take p (drop (j * p) xs) ! q) [0..<n]"
    by (simp add: chunks_def comp_def)
  also have "\<dots> = map (\<lambda>j. xs ! (j * p + q)) [0..<n]"
  proof (rule map_cong [OF refl])
    fix j assume "j \<in> set [0..<n]"
    then have "j < n" by simp
    from chunk_nth [OF assms(1) this assms(2)] this
    show "take p (drop (j * p) xs) ! q = xs ! (j * p + q)"
      by (simp add: chunks_nth)
  qed
  finally show ?thesis .
qed

lemma reduce_dim0_shape: "shape t = n # s \<Longrightarrow> shape (reduce_dim0 f t) = s"
  by (simp add: reduce_dim0_def)

lemma reduce_dim0_length: "shape t = n # s \<Longrightarrow> length (data (reduce_dim0 f t)) = prod_list s"
  by (simp add: reduce_dim0_def)

lemma reduce_dim0_wf: "shape t = n # s \<Longrightarrow> wf_tensor (reduce_dim0 f t)"
  by (simp add: reduce_dim0_def wf_tensor_def)

lemma reduce_dim0_nth:
  assumes "shape t = n # s" and "wf_tensor t" and "q < prod_list s"
  shows "data (reduce_dim0 f t) ! q = f (map (\<lambda>j. data t ! (j * prod_list s + q)) [0..<n])"
proof -
  have "length (data t) = n * prod_list s"
    using assms(1,2) by (simp add: wf_tensor_def)
  from column_nth [OF this assms(3)] assms(1,3) show ?thesis
    by (simp add: reduce_dim0_def)
qed

lemma calculate_majority_sign_mask_total:
  assumes "shape t = n # s" and "wf_tensor t"
  shows "calculate_majority_sign_mask env t ''total'' =
           Inr \<lparr>shape = n # s,
                data = map2 (=) (map sgn (data t))
                         (concat (replicate n (map (\<lambda>x. if x \<ge> 0 then 1 else - 1)
                                                   (data (reduce_dim0 (fl_sum env) t)))))\<rparr>"
proof -
  let ?maj = "tmap (\<lambda>x::real. if x \<ge> 0 then 1 else - 1 :: real) (reduce_dim0 (fl_sum env) t)"
  have "wf_tensor ?maj" "shape (tmap sgn t) = n # shape ?maj" "wf_tensor (tmap sgn t)"
    using assms by (simp_all add: reduce_dim0_wf [of t n s] reduce_dim0_shape [of t n s])
  then have "binop (=) (tmap sgn t) ?maj =
      Inr \<lparr>shape = shape (tmap sgn t),
           data = map2 (=) (data (tmap sgn t)) (concat (replicate n (data ?maj)))\<rparr>"
    by (intro binop_row)
  then show ?thesis
    using assms(1) by (simp add: calculate_majority_sign_mask_def teq_def)
qed

lemma calculate_majority_sign_mask_frequency:
  assumes "shape t = n # s" and "wf_tensor t"
  shows "calculate_majority_sign_mask env t ''frequency'' =
           Inr \<lparr>shape = n # s,
                data = map2 (=) (map sgn (data t))
                         (concat (replicate n (map (\<lambda>x. if x \<ge> 0 then 1 else - 1)
                                                   (data (reduce_dim0 (fl_sum env) (tmap sgn t))))))\<rparr>"
proof -
  let ?maj = "tmap (\<lambda>x::real. if x \<ge> 0 then 1 else - 1 :: real)
                (reduce_dim0 (fl_sum env) (tmap sgn t))"
  have "wf_tensor ?maj" "shape (tmap sgn t) = n # shape ?maj" "wf_tensor (tmap sgn t)"
    using assms by (simp_all add: reduce_dim0_wf [of _ n s] reduce_dim0_shape [of _ n s])
  then have "binop (=) (tmap sgn t) ?maj =
      Inr \<lparr>shape = shape (tmap sgn t),
           data = map2 (=) (data (tmap sgn t)) (concat (replicate n (data ?maj)))\<rparr>"
    by (intro binop_row)
  then show ?thesis
    using assms(1) by (simp add: calculate_majority_sign_mask_def teq_def)
qed

text \<open>The mask of a stacked tensor, element by element.\<close>

lemma sign_mask_nth:
  fixes xs :: "real list" and mag :: "real list"
  assumes "length xs = n * length mag" and "i < n" and "q < length mag"
  shows "map2 (=) (map sgn xs) (concat (replicate n (map (\<lambda>x. if x \<ge> 0 then 1 else - 1) mag)))
           ! (i * length mag + q)
         = (sgn (xs ! (i * length mag + q)) = (if mag ! q \<ge> 0 then 1 else - 1))"
proof -
  let ?maj = "map (\<lambda>x::real. if x \<ge> 0 then 1 else - 1 :: real) mag"
  have k: "i * length mag + q < n * length mag"
    using assms(2,3) by (rule block_index_less)
  have "concat (replicate n ?maj) ! (i * length ?maj + q) = ?maj ! q"
    using assms(2,3) by (intro concat_replicate_nth) simp_all
  then show ?thesis
    using k assms by simp
qed

lemma sign_mask_zero:
  fixes xs :: "real list"
  assumes "k < length xs" and "length ys = length xs" and "xs ! k = 0"
    and "\<forall>y \<in> set ys. y = 1 \<or> y = - 1"
  shows "\<not> map2 (=) (map sgn xs) ys ! k"
proof -
  have "ys ! k \<in> set ys" using assms(1,2) by simp
  with assms(4) have "ys ! k = 1 \<or> ys ! k = - 1" by blast
  with assms(1,2,3) show ?thesis by auto
qed


lemma map2_nth:
  "k < length xs \<Longrightarrow> k < length ys \<Longrightarrow> map2 f xs ys ! k = f (xs ! k) (ys ! k)"
  by simp

lemma map2_div_total:
  fixes xs ys :: "real list"
  assumes "0 \<notin> set ys"
  shows "map2 (\<lambda>x y. if y = 0 then None else Some (x / y)) xs ys = map Some (map2 (/) xs ys)"
proof -
  have "map (\<lambda>(x, y). if y = 0 then None else Some (x / y)) (zip xs ys)
          = map (\<lambda>(x, y). Some (x / y)) (zip xs ys)"
  proof (rule map_cong [OF refl])
    fix z assume "z \<in> set (zip xs ys)"
    moreover obtain x y where "z = (x, y)" by (cases z)
    ultimately have "snd z \<in> set ys"
      by (auto dest: set_zip_rightD)
    with assms have "snd z \<noteq> 0" by metis
    then show "(case z of (x, y) \<Rightarrow> if y = 0 then None else Some (x / y))
                 = (case z of (x, y) \<Rightarrow> Some (x / y))"
      by (cases z) simp
  qed
  then show ?thesis by (simp add: comp_def case_prod_unfold)
qed

lemma tdiv_same:
  assumes "wf_tensor a" and "wf_tensor b" and "shape b = shape a" and "0 \<notin> set (data b)"
  shows "tdiv a b = Inr \<lparr>shape = shape a, data = map2 (/) (data a) (data b)\<rparr>"
proof -
  let ?f = "\<lambda>x y :: real. if y = 0 then None else Some (x / y)"
  have "binop ?f a b = Inr \<lparr>shape = shape a, data = map2 ?f (data a) (data b)\<rparr>"
    using assms(1-3) by (rule binop_same)
  moreover have "map2 ?f (data a) (data b) = map Some (map2 (/) (data a) (data b))"
    using assms(4) by (rule map2_div_total)
  ultimately show ?thesis
    by (simp add: tdiv_def tmap_def list_all_iff comp_def)
qed

lemma disjoint_merge_nth:
  assumes w: "shape w = n # s" "wf_tensor w" and m: "shape m = n # s" "wf_tensor m"
  shows "\<exists>out. disjoint_merge w m = Inr out \<and> shape out = s \<and>
           length (data out) = prod_list s \<and>
           (\<forall>q < prod_list s.
              data out ! q =
                (\<Sum>j<n. if data m ! (j * prod_list s + q) then data w ! (j * prod_list s + q) else 0)
                / max (\<Sum>j<n. if data m ! (j * prod_list s + q) then 1 else 0) 1)"
proof -
  let ?P = "prod_list s"
  let ?b = "of_bool_tensor m"
  let ?masked = "\<lparr>shape = shape w, data = map2 (*) (data w) (data ?b)\<rparr>"
  let ?num = "sum_dim0 ?masked"
  let ?cnt = "sum_dim0 ?b"
  have lw: "length (data w) = n * ?P" and lm: "length (data m) = n * ?P"
    using w m by (simp_all add: wf_tensor_def)
  have b: "shape ?b = n # s" "wf_tensor ?b"
    using m by (simp_all add: of_bool_tensor_def)
  have mul: "tmul w ?b = Inr ?masked"
    unfolding tmul_def using w b by (intro binop_same) simp_all
  have masked: "shape ?masked = n # s" "wf_tensor ?masked"
    using w lw lm by (simp_all add: wf_tensor_def of_bool_tensor_def)
  have num: "shape ?num = s" "wf_tensor ?num" "length (data ?num) = ?P"
    using masked by (simp_all add: sum_dim0_shape [of _ n s] sum_dim0_wf [of _ n s] sum_dim0_length [of _ n s])
  have cnt: "shape ?cnt = s" "wf_tensor ?cnt" "length (data ?cnt) = ?P"
    using b by (simp_all add: sum_dim0_shape [of _ n s] sum_dim0_wf [of _ n s] sum_dim0_length [of _ n s])
  let ?out = "\<lparr>shape = s, data = map2 (/) (data ?num) (data (clamp_min ?cnt 1))\<rparr>"
  have "tdiv ?num (clamp_min ?cnt 1) =
          Inr \<lparr>shape = shape ?num, data = map2 (/) (data ?num) (data (clamp_min ?cnt 1))\<rparr>"
    using num cnt by (intro tdiv_same) (auto simp: clamp_min_def)
  then have dm: "disjoint_merge w m = Inr ?out"
    using mul num(1) by (simp add: disjoint_merge_def Let_def)
  have nth: "data ?out ! q =
      (\<Sum>j<n. if data m ! (j * ?P + q) then data w ! (j * ?P + q) else 0)
      / max (\<Sum>j<n. if data m ! (j * ?P + q) then 1 else 0) 1" if q: "q < ?P" for q
  proof -
    have 1: "data ?num ! q = (\<Sum>j<n. data ?masked ! (j * ?P + q))"
      using masked q by (rule sum_dim0_nth)
    have 2: "data ?cnt ! q = (\<Sum>j<n. data ?b ! (j * ?P + q))"
      using b q by (rule sum_dim0_nth)
    have 3: "data ?masked ! (j * ?P + q) = (if data m ! (j * ?P + q) then data w ! (j * ?P + q) else 0)"
      if "j < n" for j
      using block_index_less [OF that q] lw lm by (simp add: of_bool_tensor_def)
    have 4: "data ?b ! (j * ?P + q) = (if data m ! (j * ?P + q) then 1 else 0)"
      if "j < n" for j
      using block_index_less [OF that q] lm by (simp add: of_bool_tensor_def)
    have "data ?out ! q = data ?num ! q / max (data ?cnt ! q) 1"
      using q num(3) cnt(3) by (simp add: clamp_min_def)
    also have "data ?num ! q = (\<Sum>j<n. if data m ! (j * ?P + q) then data w ! (j * ?P + q) else 0)"
      unfolding 1 by (intro sum.cong refl 3) simp
    also have "data ?cnt ! q = (\<Sum>j<n. if data m ! (j * ?P + q) then 1 else 0)"
      unfolding 2 by (intro sum.cong refl 4) simp
    finally show ?thesis .
  qed
  have "shape ?out = s" "length (data ?out) = ?P"
    using num(3) cnt(3) by (simp_all add: clamp_min_def)
  with dm nth show ?thesis by blast
qed

lemma sum_if_filter:
  fixes f :: "nat \<Rightarrow> real"
  shows "(\<Sum>j<n. if Q j then f j else 0) = sum f {j \<in> {..<n}. Q j}"
  by (rule sum.inter_filter [symmetric]) simp

lemma sum_if_card:
  fixes n :: nat
  shows "(\<Sum>j<n. if Q j then 1 else (0::real)) = real (card {j \<in> {..<n}. Q j})"
proof -
  have "(\<Sum>j<n. if Q j then 1 else (0::real)) = sum (\<lambda>_. 1 :: real) {j \<in> {..<n}. Q j}"
    by (rule sum_if_filter [where f = "\<lambda>_. 1"])
  then show ?thesis by simp
qed

subsection \<open>Scaling\<close>








subsection \<open>Means of blocks\<close>

lemma sum_list_block:
  fixes xs :: "real list"
  assumes "length xs = n * p" and "i < n"
  shows "sum_list (take p (drop (i * p) xs)) = (\<Sum>q<p. xs ! (i * p + q))"
proof -
  let ?c = "take p (drop (i * p) xs)"
  have "Suc i * p \<le> n * p"
    using assms(2) by (intro mult_le_mono1) simp
  then have len: "length ?c = p"
    using assms(1) by simp
  have "sum_list ?c = (\<Sum>q = 0..<length ?c. ?c ! q)"
    by (rule sum_list_sum_nth)
  also have "\<dots> = (\<Sum>q<p. ?c ! q)"
    unfolding len by (simp add: atLeast0LessThan)
  also have "\<dots> = (\<Sum>q<p. xs ! (i * p + q))"
  proof (rule sum.cong [OF refl])
    fix q assume "q \<in> {..<p}"
    then have q: "q < p" by simp
    from block_index_less [OF assms(2) q] assms(1) have "i * p + q \<le> length xs"
      by simp
    with q show "?c ! q = xs ! (i * p + q)"
      by simp
  qed
  finally show ?thesis .
qed



subsection \<open>Top-k selection\<close>

lemma length_index_put [simp]: "length (index_put xs idx v) = length xs"
  unfolding index_put_def by (induction idx arbitrary: xs) simp_all

lemma index_put_nth:
  "j < length xs \<Longrightarrow> index_put xs idx v ! j = (if j \<in> set idx then v else xs ! j)"
  unfolding index_put_def
proof (induction idx arbitrary: xs)
  case Nil
  then show ?case by simp
next
  case (Cons a idx)
  from Cons.prems have "j < length (xs[a := v])" by simp
  from Cons.IH [OF this] Cons.prems show ?case
    by (simp add: nth_list_update)
qed

lemma sorted_take_drop:
  assumes "sorted (map f ys)" and "a \<in> set (take k ys)" and "b \<in> set (drop k ys)"
  shows "f a \<le> f b"
proof -
  have "sorted (map f (take k ys) @ map f (drop k ys))"
    using assms(1) by (simp only: map_append [symmetric] append_take_drop_id)
  with assms(2,3) show ?thesis
    by (auto simp: sorted_append)
qed

lemma topk_selects:
  assumes "0 \<le> k" and "k \<le> int (length xs)"
    and "distinct order" and "set order = {..<length xs}"
  shows "\<exists>vals idx. topk order xs k = Inr (vals, idx) \<and> distinct idx \<and> length idx = nat k \<and>
           set idx \<subseteq> {..<length xs} \<and>
           (\<forall>i \<in> set idx. \<forall>j<length xs. j \<notin> set idx \<longrightarrow> xs ! j \<le> xs ! i)"
proof -
  let ?f = "\<lambda>i. - (xs ! i)"
  let ?ys = "sort_key ?f order"
  let ?idx = "take (nat k) ?ys"
  have tk: "topk order xs k = Inr (map (\<lambda>i. xs ! i) ?idx, ?idx)"
    using assms(1,2) by (simp add: topk_def Let_def)
  have d: "distinct ?idx"
    using assms(3) by (intro distinct_take) simp
  have "length order = length xs"
    using assms(3,4) distinct_card [of order] by simp
  then have l: "length ?idx = nat k"
    using assms(1,2) by simp
  have s: "set ?idx \<subseteq> {..<length xs}"
    using set_take_subset [of "nat k" ?ys] assms(4) by auto
  have o: "xs ! j \<le> xs ! i" if i: "i \<in> set ?idx" and j: "j < length xs" "j \<notin> set ?idx" for i j
  proof -
    have "j \<in> set ?ys" using j(1) assms(4) by simp
    then have "j \<in> set (take (nat k) ?ys @ drop (nat k) ?ys)"
      by (simp only: append_take_drop_id)
    then have "j \<in> set (take (nat k) ?ys) \<or> j \<in> set (drop (nat k) ?ys)"
      by (simp only: set_append Un_iff)
    with j(2) have "j \<in> set (drop (nat k) ?ys)" by blast
    with i have "?f i \<le> ?f j"
      by (intro sorted_take_drop [where f = ?f and ys = ?ys and k = "nat k"]) simp_all
    then show ?thesis by simp
  qed
  from tk d l s o show ?thesis by blast
qed

lemma py_int_nonneg: "0 \<le> x \<Longrightarrow> py_int x = \<lfloor>x\<rfloor>"
  by (simp add: py_int_def)

subsection \<open>Rounding\<close>

lemma round_half_even_le: "y \<le> of_int K \<Longrightarrow> round_half_even y \<le> K"
proof -
  assume y: "y \<le> of_int K"
  then have f: "\<lfloor>y\<rfloor> \<le> K" by (simp add: floor_le_iff)
  have "\<lfloor>y\<rfloor> + 1 \<le> K" if "1 / 2 \<le> y - of_int \<lfloor>y\<rfloor>"
  proof -
    from that y have "of_int \<lfloor>y\<rfloor> < (of_int K :: real)" by linarith
    then show ?thesis by simp
  qed
  with f show ?thesis
    by (auto simp: round_half_even_def Let_def)
qed

lemma round_half_even_ge: "of_int K \<le> y \<Longrightarrow> K \<le> round_half_even y"
proof -
  assume "of_int K \<le> y"
  then have "K \<le> \<lfloor>y\<rfloor>" by (simp add: le_floor_iff)
  then show ?thesis
    by (auto simp: round_half_even_def Let_def)
qed

lemma bit_length_nonneg: "0 \<le> bit_length n"
  by (induction n rule: bit_length.induct) (subst bit_length.simps, simp)

lemma bit_length_le: "n < 2 ^ k \<Longrightarrow> bit_length n \<le> int k"
proof (induction k arbitrary: n)
  case 0
  then show ?case by (subst bit_length.simps) simp
next
  case (Suc k)
  show ?case
  proof (cases "n \<le> 0")
    case True
    then show ?thesis by (subst bit_length.simps) simp
  next
    case False
    from Suc.prems have "n div 2 < 2 ^ k" by simp
    from Suc.IH [OF this] False show ?thesis
      by (subst bit_length.simps) simp
  qed
qed

text \<open>Rounding does not cross an integer that the format represents.\<close>

lemma fl_round_between:
  assumes p: "0 < p" and x: "0 < x" "x < 2 ^ p" and L: "of_int L \<le> x" and U: "x \<le> of_int U"
  shows "of_int L \<le> fl_round p x \<and> fl_round p x \<le> of_int U"
proof -
  define j where "j = ilog2 \<bar>x\<bar> - int p + 1"
  have "ilog2 x \<le> int p - 1"
  proof (cases "1 \<le> x")
    case True
    from x(2) have "\<lfloor>x\<rfloor> < 2 ^ p"
      by (simp add: floor_less_iff)
    from bit_length_le [OF this] True show ?thesis
      by (simp add: ilog2_def)
  next
    case False
    with p bit_length_nonneg [of "\<lceil>1 / x\<rceil> - 1"] show ?thesis
      by (simp add: ilog2_def)
  qed
  with x(1) have j: "j \<le> 0" by (simp add: j_def)
  define M :: int where "M = 2 ^ nat (- j)"
  have M: "0 < M" by (simp add: M_def)
  have u: "pow2 j = 1 / of_int M"
    using j by (cases "j = 0") (simp_all add: pow2_def M_def)
  have "of_int (L * M) \<le> x / (1 / of_int M)" and "x / (1 / of_int M) \<le> of_int (U * M)"
    using L U M by (simp_all add: mult_right_mono)
  then have "L * M \<le> round_half_even (x / (1 / of_int M))"
    and "round_half_even (x / (1 / of_int M)) \<le> U * M"
    by (simp_all only: round_half_even_ge round_half_even_le)
  then have "of_int (L * M) \<le> (of_int (round_half_even (x / (1 / of_int M))) :: real)"
    and "(of_int (round_half_even (x / (1 / of_int M))) :: real) \<le> of_int (U * M)"
    by (simp_all only: of_int_le_iff)
  moreover have "0 < (of_int M :: real)"
    using M by simp
  ultimately have "(of_int L :: real) \<le> 1 / of_int M * of_int (round_half_even (x / (1 / of_int M)))"
    and "1 / of_int M * of_int (round_half_even (x / (1 / of_int M))) \<le> (of_int U :: real)"
    by (simp_all add: field_simps)
  then show ?thesis
    using x(1) u by (simp add: fl_round_def j_def Let_def)
qed

lemma sequential_order:
  "distinct (topk_order sequential_runtime xs)"
  "set (topk_order sequential_runtime xs) = {..<length xs}"
  by (simp_all add: sequential_runtime_def atLeast0LessThan)

section \<open>Properties\<close>

text \<open>
  C9. For every tensor and every method name, \<open>prune\<close> with a density of at least 1
  emits one warning and returns the tensor unchanged, without an error; with a negative
  density it fails with a \<open>ValueError\<close> (the invalid-argument error) and emits no warning.
\<close>

theorem prune_density_bounds:
  "(1 \<le> density \<longrightarrow>
      (\<exists>w. prune env t density method rescale = ([w], Inr t))) \<and>
   (density < 0 \<longrightarrow>
      (\<exists>msg. prune env t density method rescale = ([], Inl (ValueError msg))))"
  by (simp add: prune_def)

theorem prune_density_bounds_witness:
  "(1::real) \<le> 3 / 2 \<and> (- 1 / 4 :: real) < 0 \<and>
   (\<exists>w. prune sequential_runtime \<lparr>shape = [2], data = [5, - 7]\<rparr> (3 / 2) ''magnitude'' False
          = ([w], Inr \<lparr>shape = [2], data = [5, - 7]\<rparr>)) \<and>
   (\<exists>msg. prune sequential_runtime \<lparr>shape = [2], data = [5, - 7]\<rparr> (- 1 / 4) ''random'' True
          = ([], Inl (ValueError msg)))"
  using prune_density_bounds [of "3 / 2" sequential_runtime "\<lparr>shape = [2], data = [5, - 7]\<rparr>" "''magnitude''" False]
        prune_density_bounds [of "- 1 / 4" sequential_runtime "\<lparr>shape = [2], data = [5, - 7]\<rparr>" "''random''" True]
  by simp

text \<open>
  C1. The claim is that \<open>random_pruning\<close> with \<open>rescale = True\<close> returns the kept values
  divided by the density. On the tensor \<open>[2, 3]\<close> with density \<open>1 / 2\<close> and a random source
  that keeps both elements, the kept values would be \<open>[4, 6]\<close>; the function returns
  \<open>[2, 3]\<close>, the same as with \<open>rescale = False\<close>.
\<close>

theorem random_pruning_rescale_discarded:
  "random_pruning (\<lambda>_. 0) \<lparr>shape = [2], data = [2, 3]\<rparr> (1 / 2) True
     = Inr \<lparr>shape = [2], data = [2, 3]\<rparr> \<and>
   random_pruning (\<lambda>_. 0) \<lparr>shape = [2], data = [2, 3]\<rparr> (1 / 2) False
     = Inr \<lparr>shape = [2], data = [2, 3]\<rparr>"
  by code_simp

text \<open>The same holds at every input: the flag has no influence on the result.\<close>

lemma random_pruning_rescale_unused:
  "random_pruning u t density True = random_pruning u t density False"
  by (simp add: random_pruning_def Let_def)

text \<open>
  C2. The claim is that \<open>sce\<close> returns a tensor of the common shape of its inputs, also
  at density 0. For two task tensors of shape \<open>[2]\<close> and density 0, \<open>sce_mask\<close> returns
  zeros of the stacked shape \<open>[2, 2]\<close>, the product with the stacked tensors has shape
  \<open>[1, 2, 2]\<close>, and the merged tensor has shape \<open>[2, 2]\<close>, whatever the runtime. At
  density 1 the same inputs give a tensor of shape \<open>[2]\<close>.
\<close>

theorem sce_density_zero_shape:
  "sce env [\<lparr>shape = [2], data = [1, 2]\<rparr>, \<lparr>shape = [2], data = [3, - 4]\<rparr>] 0 ''total''
     = Inr \<lparr>shape = [2, 2], data = [0, 0, 0, 0]\<rparr> \<and>
   sce sequential_runtime
       [\<lparr>shape = [2], data = [1, 2]\<rparr>, \<lparr>shape = [2], data = [3, - 4]\<rparr>] 1 ''total''
     = Inr \<lparr>shape = [2], data = [8 / 3, - 4]\<rparr>"
proof
  show "sce env [\<lparr>shape = [2], data = [1, 2]\<rparr>, \<lparr>shape = [2], data = [3, - 4]\<rparr>] 0 ''total''
     = Inr \<lparr>shape = [2, 2], data = [0, 0, 0, 0]\<rparr>"
    by (simp add: sce_def stack_def sce_mask_def zeros_like_def ones_like_def tmap_def unsqueeze0_def
        tmul_def tdiv_def teq_def binop_def broadcast_shapes_def pad_shape_def chunks_def
        upt_conv_Cons calculate_majority_sign_mask_def reduce_dim0_def sce_weight_def
        mean_sq_tail_def ndim_def of_bool_tensor_def sum_dim0_def clamp_min_def Let_def
        eval_nat_numeral)
next
  show "sce sequential_runtime
       [\<lparr>shape = [2], data = [1, 2]\<rparr>, \<lparr>shape = [2], data = [3, - 4]\<rparr>] 1 ''total''
     = Inr \<lparr>shape = [2], data = [8 / 3, - 4]\<rparr>"
    by code_simp
qed

text \<open>
  C3, as stated: a weight tensor of higher rank than the task tensors is rejected with
  an invalid-argument error. It is not: with task tensors of shape \<open>[2]\<close> and weights of
  shape \<open>[2, 1]\<close> the weights come back as they are.
\<close>

theorem reshape_weight_rank_counterexample:
  "ndim \<lparr>shape = [2], data = [1, 2 :: real]\<rparr> < ndim \<lparr>shape = [2, 1], data = [1 / 2, 1 / 2 :: real]\<rparr> \<and>
   reshape_weight_task_tensors \<lparr>shape = [2], data = [1, 2 :: real]\<rparr>
       \<lparr>shape = [2, 1], data = [1 / 2, 1 / 2 :: real]\<rparr>
     = Inr \<lparr>shape = [2, 1], data = [1 / 2, 1 / 2]\<rparr>"
  by (simp add: reshape_weight_task_tensors_def view_def ndim_def)

text \<open>
  C3, amended. When the rank of a well-formed weight tensor exceeds the rank of the task
  tensors, \<open>reshape_weight_task_tensors\<close> raises no error and returns the weight tensor
  unchanged.
\<close>

theorem reshape_weight_rank_exceeds:
  "wf_tensor weights \<Longrightarrow> ndim task_tensors < ndim weights \<Longrightarrow>
   reshape_weight_task_tensors task_tensors weights = Inr weights"
  by (simp add: reshape_weight_task_tensors_def view_def wf_tensor_def)

theorem reshape_weight_rank_exceeds_witness:
  "wf_tensor \<lparr>shape = [2, 1], data = [1 / 2, 1 / 2 :: real]\<rparr> \<and>
   ndim \<lparr>shape = [2], data = [1, 2 :: real]\<rparr> < ndim \<lparr>shape = [2, 1], data = [1 / 2, 1 / 2 :: real]\<rparr> \<and>
   reshape_weight_task_tensors \<lparr>shape = [2], data = [1, 2 :: real]\<rparr>
       \<lparr>shape = [2, 1], data = [1 / 2, 1 / 2 :: real]\<rparr>
     = Inr \<lparr>shape = [2, 1], data = [1 / 2, 1 / 2]\<rparr>"
proof -
  have w: "wf_tensor \<lparr>shape = [2, 1], data = [1 / 2, 1 / 2 :: real]\<rparr>"
    by (simp add: wf_tensor_def)
  have r: "ndim \<lparr>shape = [2], data = [1, 2 :: real]\<rparr>
             < ndim \<lparr>shape = [2, 1], data = [1 / 2, 1 / 2 :: real]\<rparr>"
    by (simp add: ndim_def)
  show ?thesis
    using w r reshape_weight_rank_exceeds [OF w r] by simp
qed

text \<open>
  C5. For a well-formed stacked tensor with the task axis first, method \<open>total\<close> returns a
  boolean mask of the stacked shape. Its entry for task \<open>i\<close> at position \<open>q\<close> is true
  exactly when the sign of that task's element equals the majority sign at \<open>q\<close>, which
  is 1 when the sum of the raw values at \<open>q\<close> over the tasks, as torch computes it, is at
  least 0 and -1 otherwise. On the stacked values \<open>[[1,-1],[1,1],[-1,1]]\<close>, where the
  column sums are 1 and 1, the mask is \<open>[[true,false],[true,true],[false,true]]\<close>.
\<close>

theorem majority_sign_mask_total:
  assumes "shape t = n # s" and "wf_tensor t"
  shows "(\<exists>m. calculate_majority_sign_mask env t ''total'' = Inr m \<and> shape m = shape t \<and>
            length (data m) = length (data t) \<and>
            (\<forall>i<n. \<forall>q<prod_list s.
               data m ! (i * prod_list s + q) =
                 (sgn (data t ! (i * prod_list s + q)) =
                    (if 0 \<le> fl_sum env (map (\<lambda>j. data t ! (j * prod_list s + q)) [0..<n])
                     then 1 else - 1)))) \<and>
         (fl_sum env [1, 1, - 1] = 1 \<and> fl_sum env [- 1, 1, 1] = 1 \<longrightarrow>
            calculate_majority_sign_mask env
                \<lparr>shape = [3, 2], data = [1, - 1, 1, 1, - 1, 1]\<rparr> ''total''
              = Inr \<lparr>shape = [3, 2], data = [True, False, True, True, False, True]\<rparr>)"
proof
  let ?P = "prod_list s"
  let ?mag = "data (reduce_dim0 (fl_sum env) t)"
  let ?m = "\<lparr>shape = n # s,
             data = map2 (=) (map sgn (data t))
                      (concat (replicate n (map (\<lambda>x. if x \<ge> 0 then 1 else - 1) ?mag)))\<rparr>"
  have lmag: "length ?mag = ?P"
    using assms(1) by (rule reduce_dim0_length)
  have len: "length (data t) = n * length ?mag"
    using assms lmag by (simp add: wf_tensor_def)
  have "data ?m ! (i * ?P + q) =
          (sgn (data t ! (i * ?P + q)) =
             (if 0 \<le> fl_sum env (map (\<lambda>j. data t ! (j * ?P + q)) [0..<n]) then 1 else - 1))"
    if "i < n" and "q < ?P" for i q
    using sign_mask_nth [OF len, of i q] that lmag
      reduce_dim0_nth [OF assms, of q "fl_sum env"] by simp
  moreover have "calculate_majority_sign_mask env t ''total'' = Inr ?m"
    using assms by (rule calculate_majority_sign_mask_total)
  moreover have "shape ?m = shape t" "length (data ?m) = length (data t)"
    using assms(1) len by simp_all
  ultimately show "\<exists>m. calculate_majority_sign_mask env t ''total'' = Inr m \<and> shape m = shape t \<and>
            length (data m) = length (data t) \<and>
            (\<forall>i<n. \<forall>q<prod_list s.
               data m ! (i * prod_list s + q) =
                 (sgn (data t ! (i * prod_list s + q)) =
                    (if 0 \<le> fl_sum env (map (\<lambda>j. data t ! (j * prod_list s + q)) [0..<n])
                     then 1 else - 1)))"
    by blast
next
  show "fl_sum env [1, 1, - 1] = 1 \<and> fl_sum env [- 1, 1, 1] = 1 \<longrightarrow>
            calculate_majority_sign_mask env
                \<lparr>shape = [3, 2], data = [1, - 1, 1, 1, - 1, 1]\<rparr> ''total''
              = Inr \<lparr>shape = [3, 2], data = [True, False, True, True, False, True]\<rparr>"
    by (simp add: calculate_majority_sign_mask_def reduce_dim0_def teq_def binop_def
        broadcast_shapes_def pad_shape_def chunks_def upt_conv_Cons Let_def eval_nat_numeral)
qed

theorem majority_sign_mask_total_witness:
  "shape \<lparr>shape = [3, 2], data = [1, - 1, 1, 1, - 1, 1 :: real]\<rparr> = 3 # [2] \<and>
   wf_tensor \<lparr>shape = [3, 2], data = [1, - 1, 1, 1, - 1, 1 :: real]\<rparr> \<and>
   fl_sum sequential_runtime [1, 1, - 1] = 1 \<and> fl_sum sequential_runtime [- 1, 1, 1] = 1 \<and>
   calculate_majority_sign_mask sequential_runtime
       \<lparr>shape = [3, 2], data = [1, - 1, 1, 1, - 1, 1]\<rparr> ''total''
     = Inr \<lparr>shape = [3, 2], data = [True, False, True, True, False, True]\<rparr> \<and>
   shape \<lparr>shape = [3, 1], data = [100000000, - 1, - 100000000 :: real]\<rparr> = 3 # [1] \<and>
   wf_tensor \<lparr>shape = [3, 1], data = [100000000, - 1, - 100000000 :: real]\<rparr> \<and>
   fl_sum sequential_runtime [100000000, - 1, - 100000000] = 0 \<and>
   (\<exists>m. calculate_majority_sign_mask sequential_runtime
           \<lparr>shape = [3, 1], data = [100000000, - 1, - 100000000]\<rparr> ''total'' = Inr m \<and>
        shape m = [3, 1] \<and> data m ! 0 \<and> \<not> data m ! 1 \<and> \<not> data m ! 2)"
proof -
  let ?t = "\<lparr>shape = [3, 2], data = [1, - 1, 1, 1, - 1, 1 :: real]\<rparr>"
  let ?u = "\<lparr>shape = [3, 1], data = [100000000, - 1, - 100000000 :: real]\<rparr>"
  have s: "shape ?t = 3 # [2]" and w: "wf_tensor ?t"
    by (simp_all add: wf_tensor_def)
  have c: "fl_sum sequential_runtime [1, 1, - 1] = 1" "fl_sum sequential_runtime [- 1, 1, 1] = 1"
    by code_simp+
  have s': "shape ?u = 3 # [1]" and w': "wf_tensor ?u"
    by (simp_all add: wf_tensor_def)
  have z: "fl_sum sequential_runtime [100000000, - 1, - 100000000] = 0"
    by code_simp
  have 1: "calculate_majority_sign_mask sequential_runtime ?t ''total''
             = Inr \<lparr>shape = [3, 2], data = [True, False, True, True, False, True]\<rparr>"
    using majority_sign_mask_total [OF s w, of sequential_runtime] c by blast
  from majority_sign_mask_total [OF s' w', of sequential_runtime] obtain m where
    m: "calculate_majority_sign_mask sequential_runtime ?u ''total'' = Inr m" "shape m = shape ?u"
    and nth: "\<forall>i<3. \<forall>q<prod_list [1].
               data m ! (i * prod_list [1] + q) =
                 (sgn (data ?u ! (i * prod_list [1] + q)) =
                    (if 0 \<le> fl_sum sequential_runtime
                                (map (\<lambda>j. data ?u ! (j * prod_list [1] + q)) [0..<3])
                     then 1 else - 1))"
    by blast
  have col: "map ((!) [100000000, - 1, - 100000000 :: real]) [0..<3]
               = [100000000, - 1, - 100000000]"
    by (simp add: upt_conv_Cons)
  have "data m ! 0" "\<not> data m ! 1" "\<not> data m ! 2"
    using nth [rule_format, of 0 0] nth [rule_format, of 1 0] nth [rule_format, of 2 0]
    by (simp_all add: col z)
  with s w c 1 s' w' z m show ?thesis by simp
qed

text \<open>
  C6. For a well-formed stack of \<open>n > 0\<close> weighted task tensors and a mask of the same
  shape, \<open>disjoint_merge\<close> returns a tensor of the task shape and divides by 0 nowhere (a
  division by 0 would make the result \<open>NonFinite\<close>). Each entry is the sum over the
  tasks whose mask is true, divided by the number of those tasks clamped to at least 1.
  When the mask is true everywhere, each entry is the mean over the tasks. Where the
  mask is false for every task, the entry is exactly 0.
\<close>

theorem disjoint_merge_mean_and_erase:
  assumes "shape w = n # s" and "wf_tensor w" and "shape m = n # s" and "wf_tensor m"
    and "0 < n"
  shows "\<exists>out. disjoint_merge w m = Inr out \<and> shape out = s \<and>
           length (data out) = prod_list s \<and>
           (\<forall>q<prod_list s.
              data out ! q =
                (\<Sum>j<n. if data m ! (j * prod_list s + q) then data w ! (j * prod_list s + q) else 0)
                / max (real (card {j \<in> {..<n}. data m ! (j * prod_list s + q)})) 1) \<and>
           ((\<forall>k<length (data m). data m ! k) \<longrightarrow>
              (\<forall>q<prod_list s.
                 data out ! q = (\<Sum>j<n. data w ! (j * prod_list s + q)) / real n)) \<and>
           (\<forall>q<prod_list s.
              (\<forall>j<n. \<not> data m ! (j * prod_list s + q)) \<longrightarrow> data out ! q = 0)"
proof -
  let ?P = "prod_list s"
  from disjoint_merge_nth [OF assms(1-4)] obtain out where
    out: "disjoint_merge w m = Inr out" "shape out = s" "length (data out) = ?P"
    and nth: "\<And>q. q < ?P \<Longrightarrow> data out ! q =
                (\<Sum>j<n. if data m ! (j * ?P + q) then data w ! (j * ?P + q) else 0)
                / max (\<Sum>j<n. if data m ! (j * ?P + q) then 1 else 0) 1"
    by blast
  have lm: "length (data m) = n * ?P"
    using assms(3,4) by (simp add: wf_tensor_def)
  have gen: "data out ! q =
                (\<Sum>j<n. if data m ! (j * ?P + q) then data w ! (j * ?P + q) else 0)
                / max (real (card {j \<in> {..<n}. data m ! (j * ?P + q)})) 1"
    if q: "q < ?P" for q
    using nth [OF q] by (simp only: sum_if_card)
  have mean: "data out ! q = (\<Sum>j<n. data w ! (j * ?P + q)) / real n"
    if all: "\<forall>k<length (data m). data m ! k" and q: "q < ?P" for q
  proof -
    have t: "data m ! (j * ?P + q)" if "j < n" for j
      using all block_index_less [OF that q] lm by simp
    have "(\<Sum>j<n. if data m ! (j * ?P + q) then data w ! (j * ?P + q) else 0)
            = (\<Sum>j<n. data w ! (j * ?P + q))"
      by (rule sum.cong) (simp_all add: t)
    moreover have "(\<Sum>j<n. if data m ! (j * ?P + q) then 1 else 0) = real n"
    proof -
      have "(\<Sum>j<n. if data m ! (j * ?P + q) then 1 else 0) = (\<Sum>j<n. (1::real))"
        by (rule sum.cong) (simp_all add: t)
      then show ?thesis by simp
    qed
    moreover have "max (real n) 1 = real n"
      using assms(5) by simp
    ultimately show ?thesis using nth [OF q] by simp
  qed
  have erase: "data out ! q = 0"
    if none: "\<forall>j<n. \<not> data m ! (j * ?P + q)" and q: "q < ?P" for q
  proof -
    have "(\<Sum>j<n. if data m ! (j * ?P + q) then data w ! (j * ?P + q) else 0) = (\<Sum>j<n. 0)"
      by (rule sum.cong) (simp_all add: none)
    then show ?thesis using nth [OF q] by simp
  qed
  from out gen mean erase show ?thesis by blast
qed

theorem disjoint_merge_mean_and_erase_witness:
  "shape \<lparr>shape = [2, 2], data = [1, 2, 3, - 4 :: real]\<rparr> = 2 # [2] \<and>
   wf_tensor \<lparr>shape = [2, 2], data = [1, 2, 3, - 4 :: real]\<rparr> \<and>
   shape \<lparr>shape = [2, 2], data = [True, False, True, False]\<rparr> = 2 # [2] \<and>
   wf_tensor \<lparr>shape = [2, 2], data = [True, False, True, False]\<rparr> \<and>
   wf_tensor \<lparr>shape = [2, 2], data = [True, True, True, True]\<rparr> \<and>
   (0::nat) < 2 \<and>
   (\<exists>out. disjoint_merge \<lparr>shape = [2, 2], data = [1, 2, 3, - 4]\<rparr>
             \<lparr>shape = [2, 2], data = [True, False, True, False]\<rparr> = Inr out \<and>
          shape out = [2] \<and> data out ! 1 = 0) \<and>
   (\<exists>out. disjoint_merge \<lparr>shape = [2, 2], data = [1, 2, 3, - 4]\<rparr>
             \<lparr>shape = [2, 2], data = [True, True, True, True]\<rparr> = Inr out \<and>
          shape out = [2] \<and> data out ! 1 = - 1)"
proof -
  let ?w = "\<lparr>shape = [2, 2], data = [1, 2, 3, - 4 :: real]\<rparr>"
  let ?m = "\<lparr>shape = [2, 2], data = [True, False, True, False]\<rparr>"
  let ?a = "\<lparr>shape = [2, 2], data = [True, True, True, True]\<rparr>"
  have h: "shape ?w = 2 # [2]" "wf_tensor ?w" "shape ?m = 2 # [2]" "wf_tensor ?m" "(0::nat) < 2"
    by (simp_all add: wf_tensor_def)
  have g: "shape ?w = 2 # [2]" "wf_tensor ?w" "shape ?a = 2 # [2]" "wf_tensor ?a" "(0::nat) < 2"
    by (simp_all add: wf_tensor_def)
  from disjoint_merge_mean_and_erase [OF h] obtain out where
    out: "disjoint_merge ?w ?m = Inr out" "shape out = [2]"
    and erase: "\<forall>q<prod_list [2].
              (\<forall>j<2. \<not> data ?m ! (j * prod_list [2] + q)) \<longrightarrow> data out ! q = 0"
    by blast
  have "\<forall>j<2. \<not> data ?m ! (j * prod_list [2] + 1)"
    by (simp add: less_Suc_eq numeral_2_eq_2)
  with erase have 1: "data out ! 1 = 0" by simp
  from disjoint_merge_mean_and_erase [OF g] obtain out' where
    out': "disjoint_merge ?w ?a = Inr out'" "shape out' = [2]"
    and mean: "(\<forall>k<length (data ?a). data ?a ! k) \<longrightarrow>
              (\<forall>q<prod_list [2].
                 data out' ! q = (\<Sum>j<2. data ?w ! (j * prod_list [2] + q)) / real 2)"
    by blast
  have "\<forall>k<length (data ?a). data ?a ! k"
    by (simp add: less_Suc_eq numeral_eq_Suc)
  with mean have "data out' ! 1 = (\<Sum>j<2. data ?w ! (j * prod_list [2] + 1)) / real 2"
    by simp
  then have 2: "data out' ! 1 = - 1"
    by (simp add: lessThan_Suc numeral_2_eq_2)
  from h g out 1 out' 2 show ?thesis by blast
qed

text \<open>
  Without the clamp the count itself would be the divisor. For the mask of the example,
  which is false for both tasks at position 1, that division is by 0.
\<close>

lemma unclamped_count_divides_by_zero:
  "tdiv \<lparr>shape = [2], data = [2, 0]\<rparr>
        (sum_dim0 (of_bool_tensor \<lparr>shape = [2, 2], data = [True, False, True, False]\<rparr>))
     = Inl (NonFinite ''division by zero'')"
  by code_simp

text \<open>
  C10. For both consensus methods and every runtime the mask of a well-formed stacked tensor is false
  wherever the element is exactly zero. Merging any weighted stack \<open>w\<close> of the same shape
  under that mask, the entry at a position is the sum of \<open>w\<close> over the tasks whose element
  is nonzero and agrees with the majority sign, divided by the number of those tasks
  clamped to at least 1: zero elements enter neither the count nor the numerator.
\<close>

theorem zero_elements_not_counted:
  assumes "shape t = n # s" and "wf_tensor t"
    and "method = ''total'' \<or> method = ''frequency''"
    and "shape w = n # s" and "wf_tensor w"
  shows "\<exists>m out. calculate_majority_sign_mask env t method = Inr m \<and> shape m = n # s \<and>
           length (data m) = length (data t) \<and>
           (\<forall>k<length (data t). data t ! k = 0 \<longrightarrow> \<not> data m ! k) \<and>
           disjoint_merge w m = Inr out \<and>
           (\<forall>q<prod_list s.
              data out ! q =
                (\<Sum>j \<in> {j \<in> {..<n}. data t ! (j * prod_list s + q) \<noteq> 0 \<and> data m ! (j * prod_list s + q)}.
                    data w ! (j * prod_list s + q))
                / max (real (card {j \<in> {..<n}. data t ! (j * prod_list s + q) \<noteq> 0 \<and>
                                         data m ! (j * prod_list s + q)})) 1)"
proof -
  let ?P = "prod_list s"
  have lt: "length (data t) = n * ?P"
    using assms(1,2) by (simp add: wf_tensor_def)
  obtain mag :: "real list" where mag: "length mag = ?P"
    and cm: "calculate_majority_sign_mask env t method =
               Inr \<lparr>shape = n # s,
                    data = map2 (=) (map sgn (data t))
                      (concat (replicate n (map (\<lambda>x. if x \<ge> 0 then 1 else - 1) mag)))\<rparr>"
  proof (cases "method = ''total''")
    case True
    show ?thesis
      using that [of "data (reduce_dim0 (fl_sum env) t)"] True assms(1,2)
        calculate_majority_sign_mask_total [OF assms(1,2), of env]
        reduce_dim0_length [OF assms(1), of "fl_sum env"]
      by simp
  next
    case False
    with assms(3) have f: "method = ''frequency''" by simp
    have "length (data (reduce_dim0 (fl_sum env) (tmap sgn t))) = ?P"
      using assms(1) by (intro reduce_dim0_length [of _ n s]) simp
    then show ?thesis
      using that [of "data (reduce_dim0 (fl_sum env) (tmap sgn t))"] f
        calculate_majority_sign_mask_frequency [OF assms(1,2), of env]
      by simp
  qed
  let ?ys = "concat (replicate n (map (\<lambda>x::real. if x \<ge> 0 then 1 else - 1 :: real) mag))"
  let ?m = "\<lparr>shape = n # s, data = map2 (=) (map sgn (data t)) ?ys\<rparr>"
  have lys: "length ?ys = length (data t)"
    using lt mag by simp
  have pm: "\<forall>y \<in> set ?ys. y = 1 \<or> y = - 1"
    by auto
  have zero: "\<not> data ?m ! k" if "k < length (data t)" and "data t ! k = 0" for k
    using sign_mask_zero [OF that(1) lys that(2) pm] by simp
  have m: "shape ?m = n # s" "wf_tensor ?m" "length (data ?m) = length (data t)"
    using lt mag by (simp_all add: wf_tensor_def)
  from disjoint_merge_nth [OF assms(4,5) m(1,2)] obtain out where
    out: "disjoint_merge w ?m = Inr out"
    and nth: "\<And>q. q < ?P \<Longrightarrow> data out ! q =
                (\<Sum>j<n. if data ?m ! (j * ?P + q) then data w ! (j * ?P + q) else 0)
                / max (\<Sum>j<n. if data ?m ! (j * ?P + q) then 1 else 0) 1"
    by blast
  have val: "data out ! q =
      (\<Sum>j \<in> {j \<in> {..<n}. data t ! (j * ?P + q) \<noteq> 0 \<and> data ?m ! (j * ?P + q)}. data w ! (j * ?P + q))
      / max (real (card {j \<in> {..<n}. data t ! (j * ?P + q) \<noteq> 0 \<and> data ?m ! (j * ?P + q)})) 1"
    if q: "q < ?P" for q
  proof -
    have eq: "data ?m ! (j * ?P + q) = (data t ! (j * ?P + q) \<noteq> 0 \<and> data ?m ! (j * ?P + q))"
      if "j < n" for j
      using zero [of "j * ?P + q"] block_index_less [OF that q] lt by auto
    have set_eq: "{j \<in> {..<n}. data ?m ! (j * ?P + q)}
        = {j \<in> {..<n}. data t ! (j * ?P + q) \<noteq> 0 \<and> data ?m ! (j * ?P + q)}"
      using eq by blast
    have "(\<Sum>j<n. if data ?m ! (j * ?P + q) then data w ! (j * ?P + q) else 0)
            = (\<Sum>j \<in> {j \<in> {..<n}. data ?m ! (j * ?P + q)}. data w ! (j * ?P + q))"
      by (rule sum_if_filter)
    moreover have "(\<Sum>j<n. if data ?m ! (j * ?P + q) then 1 else 0)
            = real (card {j \<in> {..<n}. data ?m ! (j * ?P + q)})"
      by (rule sum_if_card)
    ultimately show ?thesis
      using nth [OF q] set_eq by simp
  qed
  from cm m(1,3) zero out val show ?thesis by blast
qed

theorem zero_elements_not_counted_witness:
  "shape \<lparr>shape = [2, 2], data = [0, 2, 3, - 4 :: real]\<rparr> = 2 # [2] \<and>
   wf_tensor \<lparr>shape = [2, 2], data = [0, 2, 3, - 4 :: real]\<rparr> \<and>
   (''frequency'' = ''total'' \<or> ''frequency'' = ''frequency'') \<and>
   shape \<lparr>shape = [2, 2], data = [0, 1, 6, - 2 :: real]\<rparr> = 2 # [2] \<and>
   wf_tensor \<lparr>shape = [2, 2], data = [0, 1, 6, - 2 :: real]\<rparr> \<and>
   (\<exists>m out. calculate_majority_sign_mask sequential_runtime
       \<lparr>shape = [2, 2], data = [0, 2, 3, - 4]\<rparr> ''frequency'' = Inr m \<and>
      \<not> data m ! 0 \<and>
      disjoint_merge \<lparr>shape = [2, 2], data = [0, 1, 6, - 2]\<rparr> m = Inr out)"
proof -
  let ?t = "\<lparr>shape = [2, 2], data = [0, 2, 3, - 4 :: real]\<rparr>"
  let ?w = "\<lparr>shape = [2, 2], data = [0, 1, 6, - 2 :: real]\<rparr>"
  have h: "shape ?t = 2 # [2]" "wf_tensor ?t" "''frequency'' = ''total'' \<or> ''frequency'' = ''frequency''"
    "shape ?w = 2 # [2]" "wf_tensor ?w"
    by (simp_all add: wf_tensor_def)
  from zero_elements_not_counted [OF h, of sequential_runtime] obtain m out where
    m: "calculate_majority_sign_mask sequential_runtime ?t ''frequency'' = Inr m"
    and z: "\<forall>k<length (data ?t). data ?t ! k = 0 \<longrightarrow> \<not> data m ! k"
    and out: "disjoint_merge ?w m = Inr out"
    by blast
  from z have "\<not> data m ! 0" by simp
  with h m out show ?thesis by blast
qed






text \<open>
  C4, as stated: the result has exactly \<open>floor(density * element_count)\<close> nonzero
  elements. On \<open>[3, 0, 0, 0]\<close> with density \<open>1 / 2\<close> that number is 2, while the result
  \<open>[3, 0, 0, 0]\<close> has one nonzero element: a selected element that is zero stays zero.
  On \<open>[5, 4, 3, 0, 0]\<close> with the double \<open>0.6\<close> as density that number is 2, while the
  result has three nonzero elements: the product is rounded to the double \<open>3.0\<close> before
  it is truncated.
\<close>

theorem magnitude_based_pruning_nonzero_counterexample:
  "magnitude_based_pruning sequential_runtime \<lparr>shape = [4], data = [3, 0, 0, 0]\<rparr> (1 / 2)
     = Inr \<lparr>shape = [4], data = [3, 0, 0, 0]\<rparr> \<and>
   count_nonzero \<lparr>shape = [4], data = [3, 0, 0, 0]\<rparr> = 1 \<and>
   \<lfloor>(1 / 2 :: real) * real (numel \<lparr>shape = [4], data = [3, 0, 0, 0 :: real]\<rparr>)\<rfloor> = 2 \<and>
   magnitude_based_pruning sequential_runtime \<lparr>shape = [5], data = [5, 4, 3, 0, 0]\<rparr>
       (5404319552844595 / 9007199254740992)
     = Inr \<lparr>shape = [5], data = [5, 4, 3, 0, 0]\<rparr> \<and>
   count_nonzero \<lparr>shape = [5], data = [5, 4, 3, 0, 0]\<rparr> = 3 \<and>
   \<lfloor>(5404319552844595 / 9007199254740992 :: real)
        * real (numel \<lparr>shape = [5], data = [5, 4, 3, 0, 0 :: real]\<rparr>)\<rfloor> = 2"
  by code_simp

text \<open>
  C4, amended. Take a well-formed tensor of fewer than \<open>2 ^ 53\<close> elements and a density
  in \<open>(0, 1)\<close>, and let \<open>topk\<close> prefer equal elements in any order of the indices.
  \<open>magnitude_based_pruning\<close> selects a set \<open>K\<close> of exactly \<open>k\<close> positions, where \<open>k\<close> is the
  product \<open>density * element_count\<close> rounded to a double and truncated, which is the
  floor or the ceiling of the exact product. It returns the element at the positions
  in \<open>K\<close> and 0 elsewhere, and the absolute value of every selected element is at least
  that of every other element. The number of nonzero elements of the result is the
  number of selected positions whose element is nonzero.
\<close>

theorem magnitude_based_pruning_keeps_top_k:
  assumes "wf_tensor t" and "0 < density" and "density < 1" and "numel t < 2 ^ 53"
    and "distinct (topk_order env (map abs (data t)))"
    and "set (topk_order env (map abs (data t))) = {..<numel t}"
  shows "\<exists>out K. magnitude_based_pruning env t density = Inr out \<and> shape out = shape t \<and>
           length (data out) = numel t \<and>
           K \<subseteq> {..<numel t} \<and>
           int (card K) = py_int (round64 (density * real (numel t))) \<and>
           \<lfloor>density * real (numel t)\<rfloor> \<le> int (card K) \<and>
           int (card K) \<le> \<lceil>density * real (numel t)\<rceil> \<and>
           (\<forall>i<numel t. data out ! i = (if i \<in> K then data t ! i else 0)) \<and>
           (\<forall>i \<in> K. \<forall>j<numel t. j \<notin> K \<longrightarrow> \<bar>data t ! j\<bar> \<le> \<bar>data t ! i\<bar>) \<and>
           count_nonzero out = card {i \<in> K. data t ! i \<noteq> 0}"
proof -
  let ?n = "numel t"
  let ?x = "density * real ?n"
  let ?k = "py_int (round64 ?x)"
  let ?a = "map abs (data t)"
  have n: "length (data t) = ?n"
    using assms(1) by (simp add: wf_tensor_def numel_def)
  have x0: "0 \<le> ?x"
    using assms(2) by simp
  have xn: "?x \<le> real ?n"
    using assms(3) mult_right_mono [of density 1 "real ?n"] by simp
  have r: "of_int \<lfloor>?x\<rfloor> \<le> round64 ?x \<and> round64 ?x \<le> of_int \<lceil>?x\<rceil>"
  proof (cases "?x = 0")
    case True
    have "round64 ?x = 0" "\<lfloor>?x\<rfloor> = 0" "\<lceil>?x\<rceil> = 0"
      unfolding True by (simp_all add: round64_def fl_round_def)
    then show ?thesis by simp
  next
    case False
    with x0 have "0 < ?x" by (metis order_le_less)
    moreover from xn assms(4) have "?x < 2 ^ 53"
      by (simp add: order.strict_trans1 )
    ultimately show ?thesis
      unfolding round64_def by (intro fl_round_between) simp_all
  qed
  have r0: "0 \<le> round64 ?x"
  proof -
    have "(0::real) \<le> of_int \<lfloor>?x\<rfloor>" using x0 by simp
    with r show ?thesis by linarith
  qed
  have kf: "?k = \<lfloor>round64 ?x\<rfloor>"
    using r0 by (rule py_int_nonneg)
  have klo: "\<lfloor>?x\<rfloor> \<le> ?k"
    using r kf by (simp add: le_floor_iff)
  have khi: "?k \<le> \<lceil>?x\<rceil>"
    using r kf by (simp add: floor_le_iff)
  have "\<lceil>?x\<rceil> \<le> int ?n"
    using xn by (simp add: ceiling_le_iff)
  with khi klo x0 n have k: "0 \<le> ?k" "?k \<le> int (length ?a)"
    by (simp_all add: order_trans [OF _ klo])
  have ord': "distinct (topk_order env ?a)" "set (topk_order env ?a) = {..<length ?a}"
    using assms(5,6) n by simp_all
  from topk_selects [OF k ord'] obtain vals idx where
    tk: "topk (topk_order env ?a) ?a ?k = Inr (vals, idx)" and d: "distinct idx"
    and l: "length idx = nat ?k"
    and s: "set idx \<subseteq> {..<?n}"
    and o: "\<forall>i \<in> set idx. \<forall>j<?n. j \<notin> set idx \<longrightarrow> ?a ! j \<le> ?a ! i"
    using n by auto
  let ?mask = "index_put (data (zeros_like t)) idx 1"
  let ?m = "\<lparr>shape = shape t, data = ?mask\<rparr>"
  let ?out = "\<lparr>shape = shape t, data = map2 (*) (data t) ?mask\<rparr>"
  have lm: "length ?mask = ?n"
    using n by (simp add: zeros_like_def)
  have vw: "view \<lparr>shape = [length ?mask], data = ?mask\<rparr> (shape t) = Inr ?m"
    using lm by (simp add: view_def numel_def)
  have "wf_tensor ?m"
    using lm by (simp add: wf_tensor_def numel_def)
  with assms(1) have "binop (*) t ?m = Inr \<lparr>shape = shape t, data = map2 (*) (data t) (data ?m)\<rparr>"
    by (intro binop_same) simp_all
  then have mul: "tmul t ?m = Inr ?out"
    by (simp add: tmul_def)
  have res: "magnitude_based_pruning env t density = Inr ?out"
    using tk vw mul by (simp add: magnitude_based_pruning_def Let_def)
  have nth: "data ?out ! i = (if i \<in> set idx then data t ! i else 0)" if "i < ?n" for i
    using that n lm index_put_nth [of i "data (zeros_like t)" idx 1]
    by (simp add: zeros_like_def)
  have ord: "\<bar>data t ! j\<bar> \<le> \<bar>data t ! i\<bar>" if "i \<in> set idx" "j < ?n" "j \<notin> set idx" for i j
  proof -
    from that(1) s have "i < ?n" by auto
    with o that n show ?thesis by auto
  qed
  have cnt: "count_nonzero ?out = card {i \<in> set idx. data t ! i \<noteq> 0}"
  proof -
    have lo: "length (data ?out) = ?n"
      using n lm by simp
    have "count_nonzero ?out = card {i. i < length (data ?out) \<and> data ?out ! i \<noteq> 0}"
      unfolding count_nonzero_def by (rule length_filter_conv_card)
    also have "{i. i < length (data ?out) \<and> data ?out ! i \<noteq> 0} = {i \<in> set idx. data t ! i \<noteq> 0}"
      using s nth lo by (auto simp only: mem_Collect_eq lessThan_iff subset_iff split: if_splits)
    finally show ?thesis .
  qed
  have "card (set idx) = nat ?k"
    using d l by (simp add: distinct_card)
  with k(1) have c: "int (card (set idx)) = ?k"
    by simp
  have "length (data ?out) = ?n" "shape ?out = shape t"
    using n lm by simp_all
  moreover have "\<lfloor>?x\<rfloor> \<le> int (card (set idx))" "int (card (set idx)) \<le> \<lceil>?x\<rceil>"
    using c klo khi by simp_all
  ultimately show ?thesis
    using res s c nth ord cnt by blast
qed

theorem magnitude_based_pruning_keeps_top_k_witness:
  "wf_tensor \<lparr>shape = [5], data = [5, 4, 3, 0, 0 :: real]\<rparr> \<and>
   (0::real) < 5404319552844595 / 9007199254740992 \<and>
   (5404319552844595 / 9007199254740992 :: real) < 1 \<and>
   numel \<lparr>shape = [5], data = [5, 4, 3, 0, 0 :: real]\<rparr> < 2 ^ 53 \<and>
   distinct (topk_order sequential_runtime (map abs [5, 4, 3, 0, 0])) \<and>
   set (topk_order sequential_runtime (map abs [5, 4, 3, 0, 0]))
     = {..<numel \<lparr>shape = [5], data = [5, 4, 3, 0, 0 :: real]\<rparr>} \<and>
   py_int (round64 (5404319552844595 / 9007199254740992 * 5)) = 3 \<and>
   (\<exists>out K. magnitude_based_pruning sequential_runtime \<lparr>shape = [5], data = [5, 4, 3, 0, 0]\<rparr>
                (5404319552844595 / 9007199254740992) = Inr out \<and>
      out = \<lparr>shape = [5], data = [5, 4, 3, 0, 0]\<rparr> \<and> card K = 3 \<and>
      count_nonzero out = card {i \<in> K. [5, 4, 3, 0, 0 :: real] ! i \<noteq> 0})"
proof -
  let ?t = "\<lparr>shape = [5], data = [5, 4, 3, 0, 0 :: real]\<rparr>"
  let ?d = "5404319552844595 / 9007199254740992 :: real"
  have h: "wf_tensor ?t" "0 < ?d" "?d < 1" "numel ?t < 2 ^ 53"
    by (simp_all add: wf_tensor_def numel_def)
  have o: "distinct (topk_order sequential_runtime (map abs [5, 4, 3, 0, 0]))"
    "set (topk_order sequential_runtime (map abs [5, 4, 3, 0, 0])) = {..<numel ?t}"
    using sequential_order [of "map abs [5, 4, 3, 0, 0]"] by (simp_all add: numel_def)
  then have o': "distinct (topk_order sequential_runtime (map abs (data ?t)))"
    "set (topk_order sequential_runtime (map abs (data ?t))) = {..<numel ?t}"
    by simp_all
  have v: "magnitude_based_pruning sequential_runtime ?t ?d = Inr \<lparr>shape = [5], data = [5, 4, 3, 0, 0]\<rparr>"
    by code_simp
  have k: "py_int (round64 (?d * 5)) = 3"
    by code_simp
  from magnitude_based_pruning_keeps_top_k [OF h o'] obtain out K where
    out: "magnitude_based_pruning sequential_runtime ?t ?d = Inr out"
    and c: "int (card K) = py_int (round64 (?d * real (numel ?t)))"
    and z: "count_nonzero out = card {i \<in> K. data ?t ! i \<noteq> 0}"
    by blast
  from out v have "out = \<lparr>shape = [5], data = [5, 4, 3, 0, 0]\<rparr>" by simp
  moreover from c k have "card K = 3" by (simp add: numel_def)
  moreover from z have "count_nonzero out = card {i \<in> K. [5, 4, 3, 0, 0 :: real] ! i \<noteq> 0}" by simp
  ultimately have "\<exists>out K. magnitude_based_pruning sequential_runtime ?t ?d = Inr out \<and>
      out = \<lparr>shape = [5], data = [5, 4, 3, 0, 0]\<rparr> \<and> card K = 3 \<and>
      count_nonzero out = card {i \<in> K. [5, 4, 3, 0, 0 :: real] ! i \<noteq> 0}"
    using out by blast
  with h o k show ?thesis
    by - (intro conjI; assumption)
qed

end
